theory Spec2Isabelle
  imports Main
begin

section \<open>The notification dispatcher of bosun (cmd/bosun/conf/notify.go)\<close>

text \<open>
  The Go file talks to three libraries that are not part of the repository: the SMTP
  client of net/smtp, the address parser of net/mail with the message encoder of the
  email package, and the HTTP client with the template engine. Their behaviour is a
  parameter of every definition below; what is embedded is the code of notify.go itself:
  which calls it makes, in which order, on which results it returns, and what it passes.
\<close>

subsection \<open>The SMTP client as seen from SendMail\<close>

text \<open>A Go \<open>error\<close> is its message; \<open>nil\<close> is \<open>None\<close>.\<close>

type_synonym err = string

text \<open>
  One constructor for each call that \<open>SendMail\<close> makes on the client: \<open>smtp.Dial\<close>,
  \<open>c.Hello\<close>, \<open>c.StartTLS\<close> (with the \<open>InsecureSkipVerify\<close> flag of its configuration),
  \<open>c.Auth (smtp.PlainAuth identity username password host)\<close>, \<open>c.Mail\<close>, \<open>c.Rcpt\<close>,
  \<open>c.Data\<close>, \<open>w.Write\<close>, \<open>w.Close\<close> on the data writer, \<open>c.Quit\<close> and \<open>c.Close\<close>.
\<close>

datatype command =
    Dial string
  | Hello string
  | StartTLS bool
  | Auth string string string string
  | Mail string
  | Rcpt string
  | Data
  | Write string
  | CloseData
  | Quit
  | Close

text \<open>
  The library and the relay behind it form a machine with a state of their own: every
  call is answered with an error or \<open>nil\<close> and moves that state. \<open>c.Extension\<close> only reads
  what the relay has advertised.
\<close>

record 's relay =
  respond :: "'s \<Rightarrow> command \<Rightarrow> err option \<times> 's"
  extension :: "'s \<Rightarrow> string \<Rightarrow> bool"

text \<open>A session is the state of the relay and the transcript so far: each call with its answer.\<close>

type_synonym 's session = "'s \<times> (command \<times> err option) list"

definition call :: "'s relay \<Rightarrow> command \<Rightarrow> 's session \<Rightarrow> err option \<times> 's session" where
  "call r c w =
     (case respond r (fst w) c of
        (e, s') \<Rightarrow> (e, (s', snd w @ [(c, e)])))"

text \<open>\<open>strings.Split(addr, ":")[0]\<close>: the text before the first colon, all of it when there is none.\<close>

definition hostWithoutPort :: "string \<Rightarrow> string" where
  "hostWithoutPort addr = takeWhile (\<lambda>ch. ch \<noteq> CHR '':'') addr"

text \<open>Lines 166 to 175: the upgrade to TLS and the authentication inside it.\<close>

definition starttls_block ::
  "'s relay \<Rightarrow> string \<Rightarrow> string \<Rightarrow> string \<Rightarrow> 's session \<Rightarrow> err option \<times> 's session" where
  "starttls_block r addr username password w =
     (if extension r (fst w) ''STARTTLS'' then
        (case call r (StartTLS True) w of
           (Some e, w1) \<Rightarrow> (Some e, w1)
         | (None, w1) \<Rightarrow>
             (if length username > 0 \<or> length password > 0 then
                (case call r (Auth [] username password (hostWithoutPort addr)) w1 of
                   (_, w2) \<Rightarrow> (None, w2))
              else (None, w1)))
      else (None, w))"

text \<open>Lines 179 to 183: the loop over the recipients, left at the first error.\<close>

fun rcpt_loop :: "'s relay \<Rightarrow> string list \<Rightarrow> 's session \<Rightarrow> err option \<times> 's session" where
  "rcpt_loop r [] w = (None, w)"
| "rcpt_loop r (a # as) w =
     (case call r (Rcpt a) w of
        (Some e, w1) \<Rightarrow> (Some e, w1)
      | (None, w1) \<Rightarrow> rcpt_loop r as w1)"

text \<open>Lines 176 to 196: envelope, data and quit.\<close>

definition envelope_data_quit ::
  "'s relay \<Rightarrow> string \<Rightarrow> string list \<Rightarrow> string \<Rightarrow> 's session \<Rightarrow> err option \<times> 's session" where
  "envelope_data_quit r from to msg w =
     (case call r (Mail from) w of
        (Some e, w1) \<Rightarrow> (Some e, w1)
      | (None, w1) \<Rightarrow>
     (case rcpt_loop r to w1 of
        (Some e, w2) \<Rightarrow> (Some e, w2)
      | (None, w2) \<Rightarrow>
     (case call r Data w2 of
        (Some e, w3) \<Rightarrow> (Some e, w3)
      | (None, w3) \<Rightarrow>
     (case call r (Write msg) w3 of
        (Some e, w4) \<Rightarrow> (Some e, w4)
      | (None, w4) \<Rightarrow>
     (case call r CloseData w4 of
        (Some e, w5) \<Rightarrow> (Some e, w5)
      | (None, w5) \<Rightarrow> call r Quit w5)))))"

text \<open>Lines 163 to 196: what runs between \<open>defer c.Close()\<close> and the return.\<close>

definition SendMail_body ::
  "'s relay \<Rightarrow> string \<Rightarrow> string \<Rightarrow> string \<Rightarrow> string \<Rightarrow> string list \<Rightarrow> string
     \<Rightarrow> 's session \<Rightarrow> err option \<times> 's session" where
  "SendMail_body r addr username password from to msg w =
     (case call r (Hello ''localhost'') w of
        (Some e, w1) \<Rightarrow> (Some e, w1)
      | (None, w1) \<Rightarrow>
     (case starttls_block r addr username password w1 of
        (Some e, w2) \<Rightarrow> (Some e, w2)
      | (None, w2) \<Rightarrow> envelope_data_quit r from to msg w2))"

text \<open>
  \<open>SendMail\<close>: a failed dial returns at once; after a successful one \<open>c.Close()\<close> is
  deferred, so it runs once the result has been computed, and its own error is dropped.
  The call starts from the relay in state \<open>s\<close> with an empty transcript and returns its
  result, the relay's final state and the transcript of the whole call.
\<close>

definition SendMail ::
  "'s relay \<Rightarrow> string \<Rightarrow> string \<Rightarrow> string \<Rightarrow> string \<Rightarrow> string list \<Rightarrow> string
     \<Rightarrow> 's \<Rightarrow> err option \<times> 's session" where
  "SendMail r addr username password from to msg s =
     (case call r (Dial addr) (s, []) of
        (Some e, w1) \<Rightarrow> (Some e, w1)
      | (None, w1) \<Rightarrow>
          (case SendMail_body r addr username password from to msg w1 of
             (res, w2) \<Rightarrow> (res, snd (call r Close w2))))"

subsection \<open>Send\<close>

text \<open>
  The fields of \<open>email.Email\<close> that notify.go reads or writes. An attachment is its
  bytes, its file name and its content type; a header is a key with a value.
\<close>

type_synonym Attachment = "string \<times> string \<times> string"

record Email =
  From :: string
  To :: "string list"
  Bcc :: "string list"
  Cc :: "string list"
  Subject :: string
  HTML :: string
  Headers :: "(string \<times> string) list"
  Attachments :: "Attachment list"

text \<open>
  The two library calls of \<open>Send\<close>: \<open>mail.ParseAddress\<close>, of whose result only the
  \<open>Address\<close> field is used, and \<open>e.Bytes()\<close>.
\<close>

record mail_lib =
  ParseAddress :: "string \<Rightarrow> err + string"
  Bytes :: "Email \<Rightarrow> err + string"

text \<open>
  \<open>Send\<close>, lines 134 to 151. \<open>make\<close> gives the empty slice, to which the three lists
  are appended in turn. A return before \<open>SendMail\<close> leaves the relay as it was, with an
  empty transcript.
\<close>

definition Send ::
  "mail_lib \<Rightarrow> 's relay \<Rightarrow> Email \<Rightarrow> string \<Rightarrow> string \<Rightarrow> string \<Rightarrow> 's \<Rightarrow> err option \<times> 's session" where
  "Send lib r e addr username password s =
     (let to = (([] @ To e) @ Cc e) @ Bcc e in
      if From e = [] \<or> length to = 0 then
        (Some ''Must specify at least one From address and one To address'', (s, []))
      else
        (case ParseAddress lib (From e) of
           Inl err \<Rightarrow> (Some err, (s, []))
         | Inr from \<Rightarrow>
        (case Bytes lib e of
           Inl err \<Rightarrow> (Some err, (s, []))
         | Inr raw \<Rightarrow> SendMail r addr username password from to raw s)))"

subsection \<open>The dispatcher's channels\<close>

record IncidentState =
  AlertKey :: string
  Subject :: string
  Body :: string
  EmailSubject :: string
  EmailBody :: string
  Attachments :: "Attachment list"

text \<open>
  What \<open>n.Body.Execute\<close> is given: the incident itself or a string. A template is the
  function from that to the text it renders, or to the error of the rendering.
\<close>

datatype tcontext = FullContext IncidentState | StringContext string

type_synonym template = "tcontext \<Rightarrow> err + string"

record MailAddress =
  Name :: string
  Address :: string

text \<open>\<open>Post\<close> and \<open>Get\<close> hold the text of the URL, \<open>None\<close> for a nil pointer.\<close>

record Notification =
  Email :: "MailAddress list"
  Post :: "string option"
  Get :: "string option"
  Print :: bool
  UseBody :: bool
  Body :: "template option"
  ContentType :: string
  UseFullContext :: bool

record Conf =
  EmailFrom :: string
  SMTPHost :: string
  SMTPUsername :: string
  SMTPPassword :: string

record Response =
  StatusCode :: int
  Status :: string

text \<open>
  A log line is the \<open>slog\<close> function called, with its arguments in order (for \<open>Errorf\<close> and
  \<open>Infof\<close> the format string first). The counters of \<open>collect.Add\<close> are a map from the
  metric's name. \<open>posted\<close> lists the HTTP POST requests made: URL, content type, payload.
\<close>

datatype arg = S string | I int | L "string list"

datatype logline =
    Infoln "arg list"
  | Infof string "arg list"
  | Error "arg list"
  | Errorln "arg list"
  | Errorf string "arg list"

record world =
  slog :: "logline list"
  collect :: "string \<Rightarrow> int"
  posted :: "(string \<times> string \<times> string) list"

definition collect_Add :: "string \<Rightarrow> int \<Rightarrow> world \<Rightarrow> world" where
  "collect_Add metric inc w = w\<lparr>collect := (collect w)(metric := collect w metric + inc)\<rparr>"

definition log :: "logline \<Rightarrow> world \<Rightarrow> world" where
  "log l w = w\<lparr>slog := slog w @ [l]\<rparr>"

text \<open>A function either returns or panics (a nil pointer is dereferenced).\<close>

datatype 'a outcome = Returned 'a | Panicked

definition GetPayload :: "Notification \<Rightarrow> string \<Rightarrow> string \<Rightarrow> string" where
  "GetPayload n subject body = (if UseBody n then body else subject)"

text \<open>Lines 61 to 77 of \<open>DoPost\<close>: the payload, or the error of the template.\<close>

definition DoPost_payload :: "Notification \<Rightarrow> IncidentState \<Rightarrow> err + string" where
  "DoPost_payload n st =
     (let payload = GetPayload n (IncidentState.Subject st) (IncidentState.Body st) in
      case Notification.Body n of
        None \<Rightarrow> Inr payload
      | Some t \<Rightarrow>
          (let context = (if UseFullContext n then FullContext st else StringContext payload) in
           case t context of
             Inl err \<Rightarrow> Inl err
           | Inr buf \<Rightarrow> Inr buf))"

text \<open>
  \<open>DoPost\<close>, lines 60 to 91. \<open>http.Post\<close> is a parameter: from the URL, the content type
  and the payload to the pair of response and error that Go returns. \<open>n.Post.String()\<close>
  panics on a nil \<open>n.Post\<close>, \<open>resp.StatusCode\<close> on a nil response.
\<close>

definition DoPost ::
  "(string \<Rightarrow> string \<Rightarrow> string \<Rightarrow> Response option \<times> err option)
     \<Rightarrow> Notification \<Rightarrow> IncidentState \<Rightarrow> world \<Rightarrow> world outcome" where
  "DoPost http_Post n st w =
     (case DoPost_payload n st of
        Inl err \<Rightarrow> Returned (log (Errorln [S err]) w)
      | Inr payload \<Rightarrow>
     (case Post n of
        None \<Rightarrow> Panicked
      | Some url \<Rightarrow>
     (let w1 = w\<lparr>posted := posted w @ [(url, ContentType n, payload)]\<rparr> in
      case http_Post url (ContentType n) payload of
        (resp, Some err) \<Rightarrow> Returned (log (Error [S err]) w1)
      | (None, None) \<Rightarrow> Panicked
      | (Some resp, None) \<Rightarrow>
          (if StatusCode resp \<ge> 300 then
             Returned (log (Errorln [S ''bad response on notification post:'', S (Status resp)]) w1)
           else
             Returned (log (Infof ''post notification successful for alert %s. Response code %d.''
                              [S (AlertKey st), I (StatusCode resp)]) w1)))))"

text \<open>
  \<open>DoEmail\<close>, lines 106 to 128. \<open>email.NewEmail\<close> gives an email with every field empty;
  \<open>e.Attach\<close> appends one attachment and \<open>e.Headers.Add\<close> one header. \<open>hostname\<close> is
  \<open>util.Hostname\<close>.
\<close>

definition NewEmail :: Email where
  "NewEmail = \<lparr>From = [], To = [], Bcc = [], Cc = [], Email.Subject = [], HTML = [],
               Headers = [], Email.Attachments = []\<rparr>"

definition DoEmail ::
  "mail_lib \<Rightarrow> 's relay \<Rightarrow> string \<Rightarrow> Notification \<Rightarrow> IncidentState \<Rightarrow> Conf \<Rightarrow> 's \<Rightarrow> world
     \<Rightarrow> world \<times> 's session" where
  "DoEmail lib r hostname n st c s w =
     (let e = NewEmail\<lparr>From := EmailFrom c\<rparr>;
          e = e\<lparr>To := To e @ map Address (Notification.Email n)\<rparr>;
          e = e\<lparr>Email.Subject := EmailSubject st\<rparr>;
          e = e\<lparr>HTML := EmailBody st\<rparr>;
          e = e\<lparr>Email.Attachments := Email.Attachments e @ IncidentState.Attachments st\<rparr>;
          ak = AlertKey st;
          e = e\<lparr>Headers := Headers e @ [(''X-Bosun-Server'', hostname)]\<rparr>
      in case Send lib r e (SMTPHost c) (SMTPUsername c) (SMTPPassword c) s of
           (Some err, sess) \<Rightarrow>
             (log (Errorf (''failed to send alert %v to %v %v'' @ [CHR 0x0A]) [S ak, L (To e), S err])
                (collect_Add ''email.sent_failed'' 1 w), sess)
         | (None, sess) \<Rightarrow>
             (log (Infof ''relayed alert %v to %v sucessfully. Subject: %d bytes. Body: %d bytes.''
                     [S ak, L (To e), I (int (length (EmailSubject st))), I (int (length (EmailBody st)))])
                (collect_Add ''email.sent'' 1 w), sess))"

subsection \<open>Notions for stating the properties\<close>

fun is_Auth :: "command \<Rightarrow> bool" where
  "is_Auth (Auth _ _ _ _) = True"
| "is_Auth _ = False"

fun is_Rcpt :: "command \<Rightarrow> bool" where
  "is_Rcpt (Rcpt _) = True"
| "is_Rcpt _ = False"

text \<open>The state of the relay after a list of calls, and whether it answers all of them with \<open>nil\<close>.\<close>

fun after :: "'s relay \<Rightarrow> 's \<Rightarrow> command list \<Rightarrow> 's" where
  "after r s [] = s"
| "after r s (c # cs) = after r (snd (respond r s c)) cs"

fun accepted :: "'s relay \<Rightarrow> 's \<Rightarrow> command list \<Rightarrow> bool" where
  "accepted r s [] = True"
| "accepted r s (c # cs) = (fst (respond r s c) = None \<and> accepted r (snd (respond r s c)) cs)"

text \<open>A transcript in which every call was answered with \<open>nil\<close>.\<close>

definition ok :: "command list \<Rightarrow> (command \<times> err option) list" where
  "ok cs = map (\<lambda>c. (c, None)) cs"

text \<open>A list of calls made in order up to the first error.\<close>

fun run_script :: "'s relay \<Rightarrow> command list \<Rightarrow> 's session \<Rightarrow> err option \<times> 's session" where
  "run_script r [] w = (None, w)"
| "run_script r (c # cs) w =
     (case call r c w of
        (Some e, w1) \<Rightarrow> (Some e, w1)
      | (None, w1) \<Rightarrow> run_script r cs w1)"

text \<open>The calls of lines 176 to 196 when none of them fails.\<close>

definition envelope_script :: "string \<Rightarrow> string list \<Rightarrow> string \<Rightarrow> command list" where
  "envelope_script from to msg = Mail from # map Rcpt to @ [Data, Write msg, CloseData, Quit]"

text \<open>
  The relay \<open>r\<close> with the answer to every \<open>Auth\<close> call replaced by \<open>f\<close> of the state and
  the call; it moves its state as \<open>r\<close> does.
\<close>

definition auth_answers :: "('s \<Rightarrow> command \<Rightarrow> err option) \<Rightarrow> 's relay \<Rightarrow> 's relay" where
  "auth_answers f r =
     r\<lparr>respond := (\<lambda>s c. if is_Auth c then (f s c, snd (respond r s c)) else respond r s c)\<rparr>"

text \<open>Two sessions with the same relay state and the same calls, whatever the answers.\<close>

definition same_calls :: "'s session \<Rightarrow> 's session \<Rightarrow> bool" where
  "same_calls w w' = (fst w = fst w' \<and> map fst (snd w) = map fst (snd w'))"

subsection \<open>Sample relays\<close>

text \<open>A relay without extensions that accepts every call.\<close>

fun accept_all :: "unit \<Rightarrow> command \<Rightarrow> err option \<times> unit" where
  "accept_all s c = (None, s)"

fun no_extension :: "unit \<Rightarrow> string \<Rightarrow> bool" where
  "no_extension s name = False"

definition plain_relay :: "unit relay" where
  "plain_relay = \<lparr>respond = accept_all, extension = no_extension\<rparr>"

text \<open>A relay that refuses the recipient \<open>c@y.com\<close>.\<close>

fun reject_c :: "unit \<Rightarrow> command \<Rightarrow> err option \<times> unit" where
  "reject_c s c = (if c = Rcpt ''c@y.com'' then Some ''550 no such user'' else None, s)"

definition picky_relay :: "unit relay" where
  "picky_relay = \<lparr>respond = reject_c, extension = no_extension\<rparr>"

text \<open>A relay that advertises STARTTLS and refuses every authentication.\<close>

fun reject_auth :: "unit \<Rightarrow> command \<Rightarrow> err option \<times> unit" where
  "reject_auth s c = (if is_Auth c then Some ''535 authentication failed'' else None, s)"

fun starttls_only :: "unit \<Rightarrow> string \<Rightarrow> bool" where
  "starttls_only s name = (name = ''STARTTLS'')"

definition tls_relay :: "unit relay" where
  "tls_relay = \<lparr>respond = reject_auth, extension = starttls_only\<rparr>"

fun accept_auth :: "unit \<Rightarrow> command \<Rightarrow> err option" where
  "accept_auth s c = None"

subsection \<open>Sample emails, notifications and incidents\<close>

text \<open>
  Two address parsers, one that wants an \<open>@\<close> and one that takes anything, with an encoder
  that gives the HTML body as the message.
\<close>

fun parse_at :: "string \<Rightarrow> err + string" where
  "parse_at a = (if CHR ''@'' \<in> set a then Inr a else Inl ''mail: missing @ in addr-spec'')"

fun parse_any :: "string \<Rightarrow> err + string" where
  "parse_any a = Inr a"

fun html_bytes :: "Email \<Rightarrow> err + string" where
  "html_bytes e = Inr (HTML e)"

definition strict_lib :: mail_lib where
  "strict_lib = \<lparr>ParseAddress = parse_at, Bytes = html_bytes\<rparr>"

definition lenient_lib :: mail_lib where
  "lenient_lib = \<lparr>ParseAddress = parse_any, Bytes = html_bytes\<rparr>"

definition no_recipient_email :: Email where
  "no_recipient_email = NewEmail\<lparr>From := ''a@x.com''\<rparr>"

definition odd_recipient_email :: Email where
  "odd_recipient_email = NewEmail\<lparr>From := ''a@x.com'', To := [''nobody''], HTML := ''hi''\<rparr>"

definition odd_sender_email :: Email where
  "odd_sender_email = NewEmail\<lparr>From := ''nobody'', To := [''b@y.com''], HTML := ''hi''\<rparr>"

definition three_lists_email :: Email where
  "three_lists_email = NewEmail\<lparr>From := ''a@x.com'', To := [''b@y.com'', ''c@z.com''],
      Bcc := [''b@y.com''], Cc := [''d@y.com''], HTML := ''hi''\<rparr>"

fun no_counts :: "string \<Rightarrow> int" where
  "no_counts metric = 0"

definition empty_world :: world where
  "empty_world = \<lparr>slog = [], collect = no_counts, posted = []\<rparr>"

fun bracket_template :: "tcontext \<Rightarrow> err + string" where
  "bracket_template (StringContext x) = Inr (''<'' @ x @ ''>'')"
| "bracket_template (FullContext st) = Inr (''alert '' @ AlertKey st)"

definition hook_notification :: Notification where
  "hook_notification = \<lparr>Email = [], Post = Some ''http://hook'', Get = None, Print = False,
      UseBody = True, Notification.Body = Some bracket_template, ContentType = ''text/plain'',
      UseFullContext = False\<rparr>"

definition cpu_incident :: IncidentState where
  "cpu_incident = \<lparr>AlertKey = ''cpu{host=a}'', IncidentState.Subject = ''cpu high'',
      IncidentState.Body = ''load is 9'', EmailSubject = [], EmailBody = [],
      IncidentState.Attachments = []\<rparr>"

fun http_404 :: "string \<Rightarrow> string \<Rightarrow> string \<Rightarrow> Response option \<times> err option" where
  "http_404 url ctype payload = (Some \<lparr>StatusCode = 404, Status = ''404 Not Found''\<rparr>, None)"

section \<open>Properties of SendMail\<close>

subsection \<open>Calls, scripts and the shape of a transcript\<close>

lemma call_eq: "call r c w = (fst (respond r (fst w) c), (snd (respond r (fst w) c), snd w @ [(c, fst (respond r (fst w) c))]))"
  by (simp add: call_def split: prod.splits)

lemma run_script_append:
  "run_script r (xs @ ys) w =
     (case run_script r xs w of
        (Some e, w1) \<Rightarrow> (Some e, w1)
      | (None, w1) \<Rightarrow> run_script r ys w1)"
  by (induction xs arbitrary: w) (auto split: prod.splits option.splits)

lemma rcpt_loop_script: "rcpt_loop r to w = run_script r (map Rcpt to) w"
  by (induction to arbitrary: w) (auto split: prod.splits option.splits)

lemma envelope_data_quit_script:
  "envelope_data_quit r from to msg w = run_script r (envelope_script from to msg) w"
  by (simp add: envelope_data_quit_def envelope_script_def rcpt_loop_script run_script_append
      split: prod.splits option.splits)

lemma run_script_shape:
  "run_script r cs w = (res, w') \<Longrightarrow>
     (res = None \<and> snd w' = snd w @ ok cs) \<or>
     (\<exists>pre c post e. cs = pre @ c # post \<and> res = Some e \<and> snd w' = snd w @ ok pre @ [(c, Some e)])"
proof (induction cs arbitrary: w)
  case Nil
  then show ?case by (simp add: ok_def)
next
  case (Cons c cs)
  show ?case
  proof (cases "fst (respond r (fst w) c)")
    case None
    with Cons.prems have "run_script r cs (snd (respond r (fst w) c), snd w @ [(c, None)]) = (res, w')"
      by (simp add: call_eq)
    from Cons.IH[OF this] show ?thesis
    proof
      assume "res = None \<and> snd w' = snd (snd (respond r (fst w) c), snd w @ [(c, None)]) @ ok cs"
      then show ?thesis by (simp add: ok_def)
    next
      assume "\<exists>pre c' post e. cs = pre @ c' # post \<and> res = Some e \<and>
          snd w' = snd (snd (respond r (fst w) c), snd w @ [(c, None)]) @ ok pre @ [(c', Some e)]"
      then obtain pre c' post e where h: "cs = pre @ c' # post" "res = Some e"
          "snd w' = snd w @ [(c, None)] @ ok pre @ [(c', Some e)]" by auto
      then have "c # cs = (c # pre) @ c' # post \<and> res = Some e \<and>
          snd w' = snd w @ ok (c # pre) @ [(c', Some e)]" by (simp add: ok_def)
      then show ?thesis by blast
    qed
  next
    case (Some e)
    with Cons.prems have "res = Some e" "snd w' = snd w @ ok [] @ [(c, Some e)]"
      by (auto simp add: call_eq ok_def)
    then have "c # cs = [] @ c # cs \<and> res = Some e \<and> snd w' = snd w @ ok [] @ [(c, Some e)]"
      by simp
    then show ?thesis by blast
  qed
qed

lemma run_script_accepted:
  "accepted r (fst w) cs \<Longrightarrow>
     run_script r cs w = (None, (after r (fst w) cs, snd w @ ok cs))"
  by (induction cs arbitrary: w) (auto simp: call_eq ok_def)

lemma starttls_block_cases [consumes 1, case_names skipped failed upgraded]:
  assumes "starttls_block r addr username password w = (res, w')"
  obtains "\<not> extension r (fst w) ''STARTTLS''" "res = None" "w' = w"
  | e where "extension r (fst w) ''STARTTLS''" "res = Some e" "snd w' = snd w @ [(StartTLS True, Some e)]"
  | hs where "extension r (fst w) ''STARTTLS''" "res = None" "snd w' = snd w @ (StartTLS True, None) # hs"
      "hs = [] \<and> username = [] \<and> password = [] \<or>
       (\<exists>ae. hs = [(Auth [] username password (hostWithoutPort addr), ae)]) \<and>
         (username \<noteq> [] \<or> password \<noteq> [])"
proof (cases "extension r (fst w) ''STARTTLS''")
  case False
  with assms have "res = None" "w' = w" by (simp_all add: starttls_block_def)
  with False show ?thesis by (rule that(1))
next
  case True
  show ?thesis
  proof (cases "fst (respond r (fst w) (StartTLS True))")
    case (Some e)
    with assms True have "res = Some e" "snd w' = snd w @ [(StartTLS True, Some e)]"
      by (auto simp: starttls_block_def call_eq)
    with True show ?thesis by (rule that(2))
  next
    case None
    show ?thesis
    proof (cases "username = [] \<and> password = []")
      case empty: True
      with assms \<open>extension r (fst w) ''STARTTLS''\<close> None
      have "res = None" "snd w' = snd w @ (StartTLS True, None) # []"
        by (auto simp: starttls_block_def call_eq)
      with \<open>extension r (fst w) ''STARTTLS''\<close> show ?thesis
        using empty by (intro that(3)[of "[]"]) simp_all
    next
      case given: False
      with assms True None
      have "res = None" "snd w' = snd w @ (StartTLS True, None) #
          [(Auth [] username password (hostWithoutPort addr),
            fst (respond r (snd (respond r (fst w) (StartTLS True)))
                   (Auth [] username password (hostWithoutPort addr))))]"
        by (auto simp: starttls_block_def call_eq split: prod.splits)
      with True show ?thesis
        using given by (intro that(3)) auto
    qed
  qed
qed

lemma SendMail_body_cases [consumes 1, case_names hello starttls envelope]:
  assumes "SendMail_body r addr username password from to msg w = (res, w')"
  obtains e where "res = Some e" "snd w' = snd w @ [(Hello ''localhost'', Some e)]"
  | e where "res = Some e" "snd w' = snd w @ [(Hello ''localhost'', None), (StartTLS True, Some e)]"
      "extension r (snd (respond r (fst w) (Hello ''localhost''))) ''STARTTLS''"
  | hs env where "snd w' = snd w @ (Hello ''localhost'', None) # hs @ env"
      "hs = [] \<and> \<not> extension r (snd (respond r (fst w) (Hello ''localhost''))) ''STARTTLS'' \<or>
       extension r (snd (respond r (fst w) (Hello ''localhost''))) ''STARTTLS'' \<and>
        (hs = [(StartTLS True, None)] \<and> username = [] \<and> password = [] \<or>
         (\<exists>ae. hs = [(StartTLS True, None), (Auth [] username password (hostWithoutPort addr), ae)])
            \<and> (username \<noteq> [] \<or> password \<noteq> []))"
      "res = None \<and> env = ok (envelope_script from to msg) \<or>
         (\<exists>pre c post e. envelope_script from to msg = pre @ c # post \<and> res = Some e \<and>
            env = ok pre @ [(c, Some e)])"
proof (cases "fst (respond r (fst w) (Hello ''localhost''))")
  case (Some e)
  with assms have "res = Some e" "snd w' = snd w @ [(Hello ''localhost'', Some e)]"
    by (auto simp add: SendMail_body_def call_eq)
  then show ?thesis by (rule that(1))
next
  case None
  define w1 where "w1 = (snd (respond r (fst w) (Hello ''localhost'')), snd w @ [(Hello ''localhost'', None)])"
  obtain r2 w2 where tls: "starttls_block r addr username password w1 = (r2, w2)"
    by (cases "starttls_block r addr username password w1")
  from assms None tls have rest:
    "(case r2 of Some e \<Rightarrow> (Some e, w2) | None \<Rightarrow> run_script r (envelope_script from to msg) w2) = (res, w')"
    by (cases r2) (auto simp add: SendMail_body_def call_eq w1_def envelope_data_quit_script)
  have env_shape: "\<exists>env. snd w' = snd w2 @ env \<and>
      (res = None \<and> env = ok (envelope_script from to msg) \<or>
         (\<exists>pre c post e. envelope_script from to msg = pre @ c # post \<and> res = Some e \<and>
            env = ok pre @ [(c, Some e)]))" if "r2 = None"
  proof -
    from rest that have "run_script r (envelope_script from to msg) w2 = (res, w')" by simp
    from run_script_shape[OF this] show ?thesis by auto
  qed
  from tls show ?thesis
  proof (cases rule: starttls_block_cases)
    case skipped
    from env_shape[OF skipped(2)] obtain env where
      env: "snd w' = snd w2 @ env" "res = None \<and> env = ok (envelope_script from to msg) \<or>
         (\<exists>pre c post e. envelope_script from to msg = pre @ c # post \<and> res = Some e \<and>
            env = ok pre @ [(c, Some e)])" by blast
    from env(1) skipped(3) have "snd w' = snd w @ (Hello ''localhost'', None) # [] @ env"
      by (simp add: w1_def)
    moreover from skipped(1)
    have "[] = [] \<and> \<not> extension r (snd (respond r (fst w) (Hello ''localhost''))) ''STARTTLS'' \<or>
       extension r (snd (respond r (fst w) (Hello ''localhost''))) ''STARTTLS'' \<and>
        ([] = [(StartTLS True, None)] \<and> username = [] \<and> password = [] \<or>
         (\<exists>ae. [] = [(StartTLS True, None), (Auth [] username password (hostWithoutPort addr), ae)])
            \<and> (username \<noteq> [] \<or> password \<noteq> []))"
      by (simp add: w1_def)
    ultimately show ?thesis using env(2) by (rule that(3))
  next
    case (failed e)
    with rest have "res = Some e" "snd w' = snd w @ [(Hello ''localhost'', None), (StartTLS True, Some e)]"
      by (auto simp: w1_def)
    moreover from failed(1) have "extension r (snd (respond r (fst w) (Hello ''localhost''))) ''STARTTLS''"
      by (simp add: w1_def)
    ultimately show ?thesis by (rule that(2))
  next
    case (upgraded hs)
    from env_shape[OF upgraded(2)] obtain env where
      env: "snd w' = snd w2 @ env" "res = None \<and> env = ok (envelope_script from to msg) \<or>
         (\<exists>pre c post e. envelope_script from to msg = pre @ c # post \<and> res = Some e \<and>
            env = ok pre @ [(c, Some e)])" by blast
    from env(1) upgraded(3)
    have "snd w' = snd w @ (Hello ''localhost'', None) # ((StartTLS True, None) # hs) @ env"
      by (simp add: w1_def)
    moreover from upgraded(1,4)
    have "(StartTLS True, None) # hs = [] \<and>
          \<not> extension r (snd (respond r (fst w) (Hello ''localhost''))) ''STARTTLS'' \<or>
       extension r (snd (respond r (fst w) (Hello ''localhost''))) ''STARTTLS'' \<and>
        ((StartTLS True, None) # hs = [(StartTLS True, None)] \<and> username = [] \<and> password = [] \<or>
         (\<exists>ae. (StartTLS True, None) # hs =
              [(StartTLS True, None), (Auth [] username password (hostWithoutPort addr), ae)])
            \<and> (username \<noteq> [] \<or> password \<noteq> []))"
      by (auto simp: w1_def)
    ultimately show ?thesis using env(2) by (rule that(3))
  qed
qed

text \<open>Where a recipient sits in the envelope script.\<close>

lemma envelope_script_rcpt:
  assumes "envelope_script from to msg = pre @ Rcpt a # post"
  shows "\<exists>to1 to2. to = to1 @ a # to2 \<and> pre = Mail from # map Rcpt to1"
proof -
  from assms have "Mail from # (map Rcpt to @ [Data, Write msg, CloseData, Quit]) = pre @ Rcpt a # post"
    by (simp add: envelope_script_def)
  then obtain pre' where pre: "pre = Mail from # pre'"
      and eq: "map Rcpt to @ [Data, Write msg, CloseData, Quit] = pre' @ Rcpt a # post"
    by (cases pre) auto
  from eq obtain us where "(map Rcpt to = pre' @ us \<and> us @ [Data, Write msg, CloseData, Quit] = Rcpt a # post)
      \<or> (map Rcpt to @ us = pre' \<and> [Data, Write msg, CloseData, Quit] = us @ Rcpt a # post)"
    by (auto simp: append_eq_append_conv2)
  then show ?thesis
  proof
    assume h: "map Rcpt to = pre' @ us \<and> us @ [Data, Write msg, CloseData, Quit] = Rcpt a # post"
    then obtain us' where "us = Rcpt a # us'" by (cases us) auto
    with h have "map Rcpt to = pre' @ Rcpt a # us'" by simp
    then obtain to1 b to2 where "to = to1 @ b # to2" "pre' = map Rcpt to1" "Rcpt a = Rcpt b"
      by (auto simp: map_eq_append_conv map_eq_Cons_conv)
    with pre show ?thesis by auto
  next
    assume h: "map Rcpt to @ us = pre' \<and> [Data, Write msg, CloseData, Quit] = us @ Rcpt a # post"
    then have "Rcpt a \<in> set [Data, Write msg, CloseData, Quit]"
      by (metis in_set_conv_decomp)
    then show ?thesis by simp
  qed
qed


lemma SendMail_dial_failed:
  assumes "fst (respond r s (Dial addr)) = Some e"
  shows "SendMail r addr username password from to msg s =
     (Some e, (snd (respond r s (Dial addr)), [(Dial addr, Some e)]))"
  using assms by (simp add: SendMail_def call_eq)

lemma SendMail_dialed:
  assumes "fst (respond r s (Dial addr)) = None"
    and "SendMail r addr username password from to msg s = (res, s', tr)"
  shows "\<exists>w' cl. SendMail_body r addr username password from to msg
            (snd (respond r s (Dial addr)), [(Dial addr, None)]) = (res, w') \<and>
          tr = snd w' @ [(Close, cl)]"
  using assms by (auto simp add: SendMail_def call_eq split: prod.splits)

lemma envelope_script_no_Close: "Close \<notin> set (envelope_script from to msg)"
  by (auto simp: envelope_script_def)

lemma envelope_script_no_Auth: "c \<in> set (envelope_script from to msg) \<Longrightarrow> \<not> is_Auth c"
  by (auto simp: envelope_script_def)

lemma SendMail_body_no_Close:
  assumes "SendMail_body r addr username password from to msg w = (res, w')"
  shows "\<exists>new. snd w' = snd w @ new \<and> new \<noteq> [] \<and> (\<forall>x\<in>set new. fst x \<noteq> Close)"
  using assms
proof (cases rule: SendMail_body_cases)
  case (envelope hs env)
  from envelope(3) have "\<forall>x\<in>set env. fst x \<in> set (envelope_script from to msg)"
    by (auto simp: ok_def)
  with envelope_script_no_Close[of "from" "to" msg] have "\<forall>x\<in>set env. fst x \<noteq> Close"
    by metis
  moreover from envelope(2) have "\<forall>x\<in>set hs. fst x \<noteq> Close" by auto
  ultimately show ?thesis using envelope(1) by auto
qed auto

lemma SendMail_cases [consumes 1, case_names dial hello starttls envelope]:
  assumes "SendMail r addr username password from to msg s = (res, s', tr)"
  obtains e where "res = Some e" "tr = [(Dial addr, Some e)]"
  | e cl where "res = Some e" "tr = [(Dial addr, None), (Hello ''localhost'', Some e), (Close, cl)]"
  | e cl where "res = Some e"
      "tr = [(Dial addr, None), (Hello ''localhost'', None), (StartTLS True, Some e), (Close, cl)]"
      "extension r (after r s [Dial addr, Hello ''localhost'']) ''STARTTLS''"
  | hs env cl where "tr = (Dial addr, None) # (Hello ''localhost'', None) # hs @ env @ [(Close, cl)]"
      "hs = [] \<and> \<not> extension r (after r s [Dial addr, Hello ''localhost'']) ''STARTTLS'' \<or>
       extension r (after r s [Dial addr, Hello ''localhost'']) ''STARTTLS'' \<and>
        (hs = [(StartTLS True, None)] \<and> username = [] \<and> password = [] \<or>
         (\<exists>ae. hs = [(StartTLS True, None), (Auth [] username password (hostWithoutPort addr), ae)])
            \<and> (username \<noteq> [] \<or> password \<noteq> []))"
      "res = None \<and> env = ok (envelope_script from to msg) \<or>
         (\<exists>pre c post e. envelope_script from to msg = pre @ c # post \<and> res = Some e \<and>
            env = ok pre @ [(c, Some e)])"
proof (cases "fst (respond r s (Dial addr))")
  case (Some e)
  from SendMail_dial_failed[OF this, of username password "from" "to" msg] assms
  have "res = Some e" "tr = [(Dial addr, Some e)]" by simp_all
  then show ?thesis by (rule that(1))
next
  case None
  from SendMail_dialed[OF None assms] obtain w' cl where
    body: "SendMail_body r addr username password from to msg
            (snd (respond r s (Dial addr)), [(Dial addr, None)]) = (res, w')"
    and tr: "tr = snd w' @ [(Close, cl)]" by blast
  from body show ?thesis
  proof (cases rule: SendMail_body_cases)
    case (hello e)
    with tr show ?thesis by (intro that(2)[of e cl]) simp_all
  next
    case (starttls e)
    with tr show ?thesis by (intro that(3)[of e cl]) simp_all
  next
    case (envelope hs env)
    from envelope(1) tr have "tr = (Dial addr, None) # (Hello ''localhost'', None) # hs @ env @ [(Close, cl)]"
      by simp
    moreover from envelope(2)
    have "hs = [] \<and> \<not> extension r (after r s [Dial addr, Hello ''localhost'']) ''STARTTLS'' \<or>
       extension r (after r s [Dial addr, Hello ''localhost'']) ''STARTTLS'' \<and>
        (hs = [(StartTLS True, None)] \<and> username = [] \<and> password = [] \<or>
         (\<exists>ae. hs = [(StartTLS True, None), (Auth [] username password (hostWithoutPort addr), ae)])
            \<and> (username \<noteq> [] \<or> password \<noteq> []))"
      by simp
    ultimately show ?thesis using envelope(3) by (rule that(4))
  qed
qed

subsection \<open>The answer to an authentication does not steer the session\<close>

lemma extension_auth_answers [simp]: "extension (auth_answers f r) = extension r"
  by (simp add: auth_answers_def)

lemma respond_auth_answers_plain:
  "\<not> is_Auth c \<Longrightarrow> respond (auth_answers f r) s c = respond r s c"
  by (simp add: auth_answers_def)

lemma respond_auth_answers_state:
  "snd (respond (auth_answers f r) s c) = snd (respond r s c)"
  by (simp add: auth_answers_def)

lemma call_sim:
  assumes "same_calls w w'"
  shows "same_calls (snd (call r c w)) (snd (call (auth_answers f r) c w'))"
    and "\<not> is_Auth c \<Longrightarrow> fst (call (auth_answers f r) c w') = fst (call r c w)"
  using assms
  by (simp_all add: same_calls_def call_eq respond_auth_answers_state respond_auth_answers_plain)

lemma run_script_sim:
  assumes "\<forall>c\<in>set cs. \<not> is_Auth c" and "same_calls w w'"
  shows "fst (run_script (auth_answers f r) cs w') = fst (run_script r cs w) \<and>
         same_calls (snd (run_script r cs w)) (snd (run_script (auth_answers f r) cs w'))"
  using assms
proof (induction cs arbitrary: w w')
  case Nil
  then show ?case by simp
next
  case (Cons c cs)
  from Cons.prems have plain: "\<not> is_Auth c" and rest: "\<forall>c\<in>set cs. \<not> is_Auth c" by simp_all
  obtain e1 w1 where c1: "call r c w = (e1, w1)" by (cases "call r c w")
  obtain e2 w2 where c2: "call (auth_answers f r) c w' = (e2, w2)"
    by (cases "call (auth_answers f r) c w'")
  from call_sim[OF Cons.prems(2), where r=r and c=c and f=f] plain c1 c2
  have sim: "same_calls w1 w2" and eq: "e2 = e1" by simp_all
  show ?case
  proof (cases e1)
    case None
    with c1 c2 eq Cons.IH[OF rest sim] show ?thesis by simp
  next
    case (Some e)
    with c1 c2 eq sim show ?thesis by simp
  qed
qed

lemma starttls_block_sim:
  assumes "same_calls w w'"
  shows "fst (starttls_block (auth_answers f r) addr username password w') =
           fst (starttls_block r addr username password w) \<and>
         same_calls (snd (starttls_block r addr username password w))
           (snd (starttls_block (auth_answers f r) addr username password w'))"
proof (cases "extension r (fst w) ''STARTTLS''")
  case False
  with assms show ?thesis by (simp add: starttls_block_def same_calls_def)
next
  case True
  obtain e1 w1 where c1: "call r (StartTLS True) w = (e1, w1)" by (cases "call r (StartTLS True) w")
  obtain e2 w2 where c2: "call (auth_answers f r) (StartTLS True) w' = (e2, w2)"
    by (cases "call (auth_answers f r) (StartTLS True) w'")
  from call_sim[OF assms, where r=r and c="StartTLS True" and f=f] c1 c2
  have sim: "same_calls w1 w2" and eq: "e2 = e1" by simp_all
  from True assms have ext': "extension r (fst w') ''STARTTLS''" by (simp add: same_calls_def)
  show ?thesis
  proof (cases e1)
    case (Some e)
    with True ext' c1 c2 eq sim show ?thesis by (simp add: starttls_block_def)
  next
    case None
    obtain e5 w5 where a1: "call r (Auth [] username password (hostWithoutPort addr)) w1 = (e5, w5)"
      by (cases "call r (Auth [] username password (hostWithoutPort addr)) w1")
    obtain e6 w6 where a2:
      "call (auth_answers f r) (Auth [] username password (hostWithoutPort addr)) w2 = (e6, w6)"
      by (cases "call (auth_answers f r) (Auth [] username password (hostWithoutPort addr)) w2")
    from call_sim(1)[OF sim, where r=r and c="Auth [] username password (hostWithoutPort addr)" and f=f]
      a1 a2
    have "same_calls w5 w6" by simp
    with None True ext' c1 c2 eq sim a1 a2 show ?thesis
      by (simp add: starttls_block_def)
  qed
qed

lemma SendMail_body_sim:
  assumes "same_calls w w'"
  shows "fst (SendMail_body (auth_answers f r) addr username password from to msg w') =
           fst (SendMail_body r addr username password from to msg w) \<and>
         same_calls (snd (SendMail_body r addr username password from to msg w))
           (snd (SendMail_body (auth_answers f r) addr username password from to msg w'))"
proof -
  obtain e1 w1 where c1: "call r (Hello ''localhost'') w = (e1, w1)"
    by (cases "call r (Hello ''localhost'') w")
  obtain e2 w2 where c2: "call (auth_answers f r) (Hello ''localhost'') w' = (e2, w2)"
    by (cases "call (auth_answers f r) (Hello ''localhost'') w'")
  from call_sim[OF assms, where r=r and c="Hello ''localhost''" and f=f] c1 c2
  have sim1: "same_calls w1 w2" and eq1: "e2 = e1" by simp_all
  show ?thesis
  proof (cases e1)
    case (Some e)
    with c1 c2 eq1 sim1 show ?thesis by (simp add: SendMail_body_def)
  next
    case None
    obtain e3 w3 where t1: "starttls_block r addr username password w1 = (e3, w3)"
      by (cases "starttls_block r addr username password w1")
    obtain e4 w4 where t2: "starttls_block (auth_answers f r) addr username password w2 = (e4, w4)"
      by (cases "starttls_block (auth_answers f r) addr username password w2")
    from starttls_block_sim[OF sim1, where r=r and f=f and addr=addr and username=username and password=password] t1 t2
    have sim2: "same_calls w3 w4" and eq2: "e4 = e3" by simp_all
    show ?thesis
    proof (cases e3)
      case (Some e)
      with None c1 c2 eq1 t1 t2 eq2 sim2 show ?thesis by (simp add: SendMail_body_def)
    next
      case e3: None
      have "\<forall>c\<in>set (envelope_script from to msg). \<not> is_Auth c"
        using envelope_script_no_Auth by blast
      from run_script_sim[OF this sim2, where r=r and f=f]
      show ?thesis
        using None e3 c1 c2 eq1 t1 t2 eq2
        by (simp add: SendMail_body_def envelope_data_quit_script)
    qed
  qed
qed

lemma SendMail_sim:
  "fst (SendMail (auth_answers f r) addr username password from to msg s) =
     fst (SendMail r addr username password from to msg s) \<and>
   fst (snd (SendMail (auth_answers f r) addr username password from to msg s)) =
     fst (snd (SendMail r addr username password from to msg s)) \<and>
   map fst (snd (snd (SendMail (auth_answers f r) addr username password from to msg s))) =
     map fst (snd (snd (SendMail r addr username password from to msg s)))"
proof -
  have start: "same_calls (s, []) (s, [])" by (simp add: same_calls_def)
  obtain e1 w1 where c1: "call r (Dial addr) (s, []) = (e1, w1)"
    by (cases "call r (Dial addr) (s, [])")
  obtain e2 w2 where c2: "call (auth_answers f r) (Dial addr) (s, []) = (e2, w2)"
    by (cases "call (auth_answers f r) (Dial addr) (s, [])")
  from call_sim[OF start, where r=r and c="Dial addr" and f=f] c1 c2
  have sim1: "same_calls w1 w2" and eq1: "e2 = e1" by simp_all
  show ?thesis
  proof (cases e1)
    case (Some e)
    with c1 c2 eq1 sim1 show ?thesis by (simp add: SendMail_def same_calls_def)
  next
    case None
    obtain e3 w3 where b1: "SendMail_body r addr username password from to msg w1 = (e3, w3)"
      by (cases "SendMail_body r addr username password from to msg w1")
    obtain e4 w4 where b2: "SendMail_body (auth_answers f r) addr username password from to msg w2 = (e4, w4)"
      by (cases "SendMail_body (auth_answers f r) addr username password from to msg w2")
    from SendMail_body_sim[OF sim1, of f r addr username password "from" "to" msg] b1 b2
    have sim2: "same_calls w3 w4" and eq2: "e4 = e3" by simp_all
    from call_sim(1)[OF sim2, where r=r and c=Close and f=f]
    have "same_calls (snd (call r Close w3)) (snd (call (auth_answers f r) Close w4))" .
    with None c1 c2 eq1 b1 b2 eq2 show ?thesis
      by (simp add: SendMail_def same_calls_def)
  qed
qed


lemma envelope_env_head:
  assumes "res = None \<and> env = ok (envelope_script from to msg) \<or>
         (\<exists>pre c post e. envelope_script from to msg = pre @ c # post \<and> res = Some e \<and>
            env = ok pre @ [(c, Some e)])"
  shows "\<exists>me rest. env = (Mail from, me) # rest \<and> (\<forall>x\<in>set rest. \<not> is_Auth (fst x))"
proof -
  from assms have cmds: "\<forall>x\<in>set env. fst x \<in> set (envelope_script from to msg)"
    by (auto simp: ok_def)
  then have no_auth: "\<forall>x\<in>set env. \<not> is_Auth (fst x)"
    using envelope_script_no_Auth by blast
  from assms have "\<exists>me rest. env = (Mail from, me) # rest"
  proof (elim disjE exE conjE)
    assume "env = ok (envelope_script from to msg)"
    then show ?thesis by (simp add: ok_def envelope_script_def)
  next
    fix pre c post e
    assume split: "envelope_script from to msg = pre @ c # post" and env: "env = ok pre @ [(c, Some e)]"
    show ?thesis
    proof (cases pre)
      case Nil
      with split have "c = Mail from" by (simp add: envelope_script_def)
      with env Nil show ?thesis by (simp add: ok_def)
    next
      case (Cons p ps)
      with split have "p = Mail from" by (simp add: envelope_script_def)
      with env Cons show ?thesis by (simp add: ok_def)
    qed
  qed
  with no_auth show ?thesis by auto
qed

subsection \<open>The connection is closed once\<close>

text \<open>
  C6. Whenever \<open>smtp.Dial\<close> has returned a client, \<open>SendMail\<close> calls \<open>c.Close()\<close> exactly
  once, as its last call, whatever the relay answers to any other call: on success and on
  a failure of the greeting, of the TLS upgrade, of the envelope, of the data transfer or
  of the quit. (What \<open>c.Quit\<close> does to the connection inside the library is not counted.)
\<close>

theorem SendMail_closes_once:
  assumes "fst (respond r s (Dial addr)) = None"
  shows "length (filter (\<lambda>x. fst x = Close)
            (snd (snd (SendMail r addr username password from to msg s)))) = 1 \<and>
         fst (last (snd (snd (SendMail r addr username password from to msg s)))) = Close"
proof -
  obtain res s' tr where sm: "SendMail r addr username password from to msg s = (res, s', tr)"
    by (cases "SendMail r addr username password from to msg s") auto
  from SendMail_dialed[OF assms sm] obtain w' cl where
    body: "SendMail_body r addr username password from to msg
            (snd (respond r s (Dial addr)), [(Dial addr, None)]) = (res, w')"
    and tr: "tr = snd w' @ [(Close, cl)]" by blast
  from SendMail_body_no_Close[OF body] obtain new where
    new: "snd w' = [(Dial addr, None)] @ new" "\<forall>x\<in>set new. fst x \<noteq> Close" by auto
  from new(2) have "filter (\<lambda>x. fst x = Close) new = []"
    by (simp add: filter_empty_conv)
  with tr new(1) sm show ?thesis by simp
qed

theorem SendMail_closes_once_witness:
  "fst (respond plain_relay () (Dial ''mail:25'')) = None \<and>
   length (filter (\<lambda>x. fst x = Close)
     (snd (snd (SendMail plain_relay ''mail:25'' [] [] ''a@x.com'' [''b@y.com''] ''hi'' ())))) = 1 \<and>
   fst (last (snd (snd (SendMail plain_relay ''mail:25'' [] [] ''a@x.com'' [''b@y.com''] ''hi'' ()))))
     = Close"
proof -
  have h: "fst (respond plain_relay () (Dial ''mail:25'')) = None"
    by (simp add: plain_relay_def)
  from SendMail_closes_once[OF h, of "[]" "[]" "''a@x.com''" "[''b@y.com'']" "''hi''"] h
  show ?thesis by (rule conjI[rotated])
qed

subsection \<open>A refused recipient\<close>

lemma picky_run:
  "SendMail picky_relay ''mail:25'' [] [] ''a@x.com'' [''b@y.com'', ''c@y.com''] ''hi'' () =
    (Some ''550 no such user'', (),
     [(Dial ''mail:25'', None), (Hello ''localhost'', None), (Mail ''a@x.com'', None),
      (Rcpt ''b@y.com'', None), (Rcpt ''c@y.com'', Some ''550 no such user''), (Close, None)])"
  by (simp add: SendMail_def SendMail_body_def starttls_block_def envelope_data_quit_def call_def
        picky_relay_def)

text \<open>
  C5. When the relay answers one of the \<open>c.Rcpt\<close> calls of a \<open>SendMail\<close> session with an
  error, \<open>SendMail\<close> returns that error; the transcript is the calls up to \<open>c.Mail\<close>, which
  was accepted, the recipients before the refused one, all accepted, the refused
  recipient, and \<open>c.Close()\<close>: no later recipient is declared, \<open>c.Data\<close> is never called and
  the connection is closed.
\<close>

theorem SendMail_rcpt_rejected:
  assumes "(Rcpt a, Some e) \<in> set (snd (snd (SendMail r addr username password from to msg s)))"
  shows "fst (SendMail r addr username password from to msg s) = Some e \<and>
     (\<exists>pre to1 to2 cl. to = to1 @ a # to2 \<and>
        snd (snd (SendMail r addr username password from to msg s)) =
          pre @ [(Mail from, None)] @ map (\<lambda>b. (Rcpt b, None)) to1 @ [(Rcpt a, Some e), (Close, cl)] \<and>
        (\<forall>x\<in>set pre. \<not> is_Rcpt (fst x) \<and> fst x \<noteq> Data)) \<and>
     Data \<notin> fst ` set (snd (snd (SendMail r addr username password from to msg s)))"
proof -
  obtain res s' tr where sm: "SendMail r addr username password from to msg s = (res, s', tr)"
    by (cases "SendMail r addr username password from to msg s") auto
  with assms have mem: "(Rcpt a, Some e) \<in> set tr" by simp
  from sm have "res = Some e \<and>
     (\<exists>pre to1 to2 cl. to = to1 @ a # to2 \<and>
        tr = pre @ [(Mail from, None)] @ map (\<lambda>b. (Rcpt b, None)) to1 @ [(Rcpt a, Some e), (Close, cl)] \<and>
        (\<forall>x\<in>set pre. \<not> is_Rcpt (fst x) \<and> fst x \<noteq> Data)) \<and>
     Data \<notin> fst ` set tr"
  proof (cases rule: SendMail_cases)
    case (dial e')
    with mem show ?thesis by simp
  next
    case (hello e' cl)
    with mem show ?thesis by simp
  next
    case (starttls e' cl)
    with mem show ?thesis by simp
  next
    case (envelope hs env cl)
    from envelope(2) have hs_plain: "\<forall>x\<in>set hs. \<not> is_Rcpt (fst x) \<and> fst x \<noteq> Data"
      by auto
    with mem envelope(1) have in_env: "(Rcpt a, Some e) \<in> set env" by auto
    with envelope(3) obtain pre c post e' where
      split: "envelope_script from to msg = pre @ c # post" and res: "res = Some e'"
      and env': "env = ok pre @ [(c, Some e')]"
      by (auto simp: ok_def)
    from in_env env' have ce: "c = Rcpt a" "e' = e" by (auto simp: ok_def)
    with split obtain to1 to2 where to: "to = to1 @ a # to2" and pre: "pre = Mail from # map Rcpt to1"
      using envelope_script_rcpt by blast
    let ?pre = "(Dial addr, None) # (Hello ''localhost'', None) # hs"
    have shape: "tr = ?pre @ [(Mail from, None)] @ map (\<lambda>b. (Rcpt b, None)) to1 @ [(Rcpt a, Some e), (Close, cl)]"
      using envelope(1) env' pre ce by (simp add: ok_def)
    have clean: "\<forall>x\<in>set ?pre. \<not> is_Rcpt (fst x) \<and> fst x \<noteq> Data"
      using hs_plain by simp
    have "Data \<notin> fst ` set tr"
      unfolding shape using hs_plain by (auto simp: image_iff)
    with res ce to shape clean show ?thesis by blast
  qed
  with sm show ?thesis by simp
qed

theorem SendMail_rcpt_rejected_witness:
  "(Rcpt ''c@y.com'', Some ''550 no such user'') \<in> set (snd (snd
      (SendMail picky_relay ''mail:25'' [] [] ''a@x.com'' [''b@y.com'', ''c@y.com''] ''hi'' ()))) \<and>
   fst (SendMail picky_relay ''mail:25'' [] [] ''a@x.com'' [''b@y.com'', ''c@y.com''] ''hi'' ())
     = Some ''550 no such user'' \<and>
   Data \<notin> fst ` set (snd (snd
      (SendMail picky_relay ''mail:25'' [] [] ''a@x.com'' [''b@y.com'', ''c@y.com''] ''hi'' ())))"
proof -
  have h: "(Rcpt ''c@y.com'', Some ''550 no such user'') \<in> set (snd (snd
      (SendMail picky_relay ''mail:25'' [] [] ''a@x.com'' [''b@y.com'', ''c@y.com''] ''hi'' ())))"
    by (simp add: picky_run)
  from SendMail_rcpt_rejected[OF h] h show ?thesis by blast
qed

subsection \<open>Without STARTTLS\<close>

text \<open>
  C3. If the relay, once dialled and greeted, does not advertise STARTTLS, then the
  transcript of \<open>SendMail\<close> holds no \<open>c.Auth\<close> call, for every user name and password.
\<close>

theorem SendMail_no_auth_without_starttls:
  assumes "\<not> extension r (after r s [Dial addr, Hello ''localhost'']) ''STARTTLS''"
  shows "filter (\<lambda>x. is_Auth (fst x))
           (snd (snd (SendMail r addr username password from to msg s))) = []"
proof -
  obtain res s' tr where sm: "SendMail r addr username password from to msg s = (res, s', tr)"
    by (cases "SendMail r addr username password from to msg s") auto
  from sm have "\<forall>x\<in>set tr. \<not> is_Auth (fst x)"
  proof (cases rule: SendMail_cases)
    case (envelope hs env cl)
    from envelope(2) assms have "hs = []" by blast
    moreover from envelope(3) have "\<forall>x\<in>set env. fst x \<in> set (envelope_script from to msg)"
      by (auto simp: ok_def)
    then have "\<forall>x\<in>set env. \<not> is_Auth (fst x)"
      using envelope_script_no_Auth by blast
    ultimately show ?thesis using envelope(1) by simp
  qed simp_all
  with sm show ?thesis by (simp add: filter_empty_conv)
qed

theorem SendMail_no_auth_without_starttls_witness:
  "\<not> extension plain_relay (after plain_relay () [Dial ''mail:25'', Hello ''localhost'']) ''STARTTLS'' \<and>
   filter (\<lambda>x. is_Auth (fst x))
     (snd (snd (SendMail plain_relay ''mail:25'' ''user'' ''secret'' ''a@x.com'' [''b@y.com''] ''hi'' ())))
     = []"
proof -
  have h: "\<not> extension plain_relay (after plain_relay () [Dial ''mail:25'', Hello ''localhost''])
      ''STARTTLS''"
    by (simp add: plain_relay_def)
  from SendMail_no_auth_without_starttls[OF h, of "''user''" "''secret''" "''a@x.com''"
      "[''b@y.com'']" "''hi''"] h
  show ?thesis by (rule conjI[rotated])
qed

text \<open>
  C10. If the relay, once dialled and greeted, does not advertise STARTTLS and accepts
  every call of the session, then \<open>SendMail\<close> returns \<open>nil\<close> and its transcript is: dial,
  greeting, sender, each recipient in order, data, the whole message, end of data, quit,
  close, with neither \<open>c.StartTLS\<close> nor \<open>c.Auth\<close> among them.
\<close>

theorem SendMail_plain_session:
  assumes "accepted r s (Dial addr # Hello ''localhost'' # Mail from # map Rcpt to @
              [Data, Write msg, CloseData, Quit])"
    and "\<not> extension r (after r s [Dial addr, Hello ''localhost'']) ''STARTTLS''"
  shows "fst (SendMail r addr username password from to msg s) = None \<and>
     (\<exists>cl. snd (snd (SendMail r addr username password from to msg s)) =
        map (\<lambda>c. (c, None))
          (Dial addr # Hello ''localhost'' # Mail from # map Rcpt to @ [Data, Write msg, CloseData, Quit])
        @ [(Close, cl)])"
proof -
  let ?s2 = "after r s [Dial addr, Hello ''localhost'']"
  from assms(1) have dial: "fst (respond r s (Dial addr)) = None"
    and hello: "fst (respond r (snd (respond r s (Dial addr))) (Hello ''localhost'')) = None"
    and env: "accepted r ?s2 (envelope_script from to msg)"
    by (simp_all add: envelope_script_def)
  let ?w2 = "(?s2, [(Dial addr, None), (Hello ''localhost'', None)])"
  have tls: "starttls_block r addr username password ?w2 = (None, ?w2)"
    using assms(2) by (simp add: starttls_block_def)
  have run: "run_script r (envelope_script from to msg) ?w2 =
      (None, (after r ?s2 (envelope_script from to msg), snd ?w2 @ ok (envelope_script from to msg)))"
    using run_script_accepted[of r ?w2 "envelope_script from to msg"] env by simp
  have body: "SendMail_body r addr username password from to msg
        (snd (respond r s (Dial addr)), [(Dial addr, None)]) =
      (None, (after r ?s2 (envelope_script from to msg), snd ?w2 @ ok (envelope_script from to msg)))"
    using hello tls run by (simp add: SendMail_body_def call_eq envelope_data_quit_script)
  show ?thesis
    using dial body by (simp add: SendMail_def call_eq ok_def envelope_script_def)
qed

theorem SendMail_plain_session_witness:
  "accepted plain_relay () (Dial ''mail:25'' # Hello ''localhost'' # Mail ''a@x.com'' #
      map Rcpt [''b@y.com''] @ [Data, Write ''hi'', CloseData, Quit]) \<and>
   \<not> extension plain_relay (after plain_relay () [Dial ''mail:25'', Hello ''localhost'']) ''STARTTLS'' \<and>
   fst (SendMail plain_relay ''mail:25'' ''user'' ''secret'' ''a@x.com'' [''b@y.com''] ''hi'' ()) = None"
proof -
  have h1: "accepted plain_relay () (Dial ''mail:25'' # Hello ''localhost'' # Mail ''a@x.com'' #
      map Rcpt [''b@y.com''] @ [Data, Write ''hi'', CloseData, Quit])"
    by (simp add: plain_relay_def)
  have h2: "\<not> extension plain_relay (after plain_relay () [Dial ''mail:25'', Hello ''localhost''])
      ''STARTTLS''"
    by (simp add: plain_relay_def)
  from SendMail_plain_session[OF h1 h2, of "''user''" "''secret''"] h1 h2
  show ?thesis by blast
qed

subsection \<open>With STARTTLS and credentials\<close>

text \<open>
  C4. If the relay accepts the dial and the greeting, advertises STARTTLS and accepts the
  upgrade, and the user name or the password is not empty, then the transcript of
  \<open>SendMail\<close> starts with dial, greeting, upgrade, one \<open>c.Auth\<close> call with plain
  authentication for the host without its port, and \<open>c.Mail\<close>, and holds no other
  \<open>c.Auth\<close> call. Whatever is put in place of the relay's answers to \<open>c.Auth\<close>, \<open>SendMail\<close>
  returns the same result after the same calls.
\<close>

theorem SendMail_auth_once_and_ignored:
  assumes "accepted r s [Dial addr, Hello ''localhost'']"
    and "extension r (after r s [Dial addr, Hello ''localhost'']) ''STARTTLS''"
    and "accepted r (after r s [Dial addr, Hello ''localhost'']) [StartTLS True]"
    and "username \<noteq> [] \<or> password \<noteq> []"
  shows "(\<exists>ae me rest.
            snd (snd (SendMail r addr username password from to msg s)) =
              [(Dial addr, None), (Hello ''localhost'', None), (StartTLS True, None),
               (Auth [] username password (hostWithoutPort addr), ae), (Mail from, me)] @ rest \<and>
            filter (\<lambda>x. is_Auth (fst x)) rest = []) \<and>
         fst (SendMail (auth_answers f r) addr username password from to msg s) =
           fst (SendMail r addr username password from to msg s) \<and>
         map fst (snd (snd (SendMail (auth_answers f r) addr username password from to msg s))) =
           map fst (snd (snd (SendMail r addr username password from to msg s)))"
proof -
  obtain res s' tr where sm: "SendMail r addr username password from to msg s = (res, s', tr)"
    by (cases "SendMail r addr username password from to msg s") auto
  let ?s2 = "after r s [Dial addr, Hello ''localhost'']"
  from assms(1) have dial: "fst (respond r s (Dial addr)) = None"
    and hello: "fst (respond r (snd (respond r s (Dial addr))) (Hello ''localhost'')) = None"
    by simp_all
  from assms(3) have tls: "fst (respond r ?s2 (StartTLS True)) = None" by simp
  let ?auth = "Auth [] username password (hostWithoutPort addr)"
  let ?s3 = "snd (respond r ?s2 (StartTLS True))"
  let ?ae = "fst (respond r ?s3 ?auth)"
  let ?w2 = "(?s2, [(Dial addr, None), (Hello ''localhost'', None)])"
  let ?w4 = "(snd (respond r ?s3 ?auth),
      [(Dial addr, None), (Hello ''localhost'', None), (StartTLS True, None), (?auth, ?ae)])"
  have block: "starttls_block r addr username password ?w2 = (None, ?w4)"
    using assms(2,4) tls by (auto simp add: starttls_block_def call_eq)
  obtain w5 where env: "run_script r (envelope_script from to msg) ?w4 = (res, w5)"
    and tr: "tr = snd w5 @ [(Close, fst (respond r (fst w5) Close))]"
    using sm dial hello block
    by (auto simp add: SendMail_def SendMail_body_def call_eq envelope_data_quit_script
        split: prod.splits)
  from run_script_shape[OF env] obtain new where
    new: "snd w5 = snd ?w4 @ new"
      "res = None \<and> new = ok (envelope_script from to msg) \<or>
         (\<exists>pre c post e. envelope_script from to msg = pre @ c # post \<and> res = Some e \<and>
            new = ok pre @ [(c, Some e)])"
    by auto
  from envelope_env_head[OF new(2)] obtain me rest where
    rest: "new = (Mail from, me) # rest" "\<forall>x\<in>set rest. \<not> is_Auth (fst x)" by blast
  from tr new(1) rest(1)
  have "tr = [(Dial addr, None), (Hello ''localhost'', None), (StartTLS True, None),
       (?auth, ?ae), (Mail from, me)] @ (rest @ [(Close, fst (respond r (fst w5) Close))])"
    by simp
  moreover from rest(2)
  have "\<forall>x\<in>set (rest @ [(Close, fst (respond r (fst w5) Close))]). \<not> is_Auth (fst x)" by simp
  ultimately have "\<exists>ae me rest. tr =
      [(Dial addr, None), (Hello ''localhost'', None), (StartTLS True, None),
       (Auth [] username password (hostWithoutPort addr), ae), (Mail from, me)] @ rest \<and>
      (\<forall>x\<in>set rest. \<not> is_Auth (fst x))"
    by blast
  then have shape: "\<exists>ae me rest. tr =
      [(Dial addr, None), (Hello ''localhost'', None), (StartTLS True, None),
       (Auth [] username password (hostWithoutPort addr), ae), (Mail from, me)] @ rest \<and>
      filter (\<lambda>x. is_Auth (fst x)) rest = []"
    by (simp add: filter_empty_conv)
  with sm SendMail_sim[of f r addr username password "from" "to" msg] show ?thesis
    by simp
qed

theorem SendMail_auth_once_and_ignored_witness:
  "accepted tls_relay () [Dial ''mail:25'', Hello ''localhost''] \<and>
   extension tls_relay (after tls_relay () [Dial ''mail:25'', Hello ''localhost'']) ''STARTTLS'' \<and>
   accepted tls_relay (after tls_relay () [Dial ''mail:25'', Hello ''localhost'']) [StartTLS True] \<and>
   fst (SendMail (auth_answers accept_auth tls_relay) ''mail:25'' ''user'' ''secret'' ''a@x.com''
          [''b@y.com''] ''hi'' ()) =
     fst (SendMail tls_relay ''mail:25'' ''user'' ''secret'' ''a@x.com'' [''b@y.com''] ''hi'' ())"
proof -
  have h1: "accepted tls_relay () [Dial ''mail:25'', Hello ''localhost'']"
    by (simp add: tls_relay_def)
  have h2: "extension tls_relay (after tls_relay () [Dial ''mail:25'', Hello ''localhost''])
      ''STARTTLS''"
    by (simp add: tls_relay_def)
  have h3: "accepted tls_relay (after tls_relay () [Dial ''mail:25'', Hello ''localhost''])
      [StartTLS True]"
    by (simp add: tls_relay_def)
  have h4: "''user'' \<noteq> [] \<or> ''secret'' \<noteq> []" by simp
  from SendMail_auth_once_and_ignored[OF h1 h2 h3 h4, of "''a@x.com''" "[''b@y.com'']" "''hi''"
      accept_auth] h1 h2 h3
  show ?thesis by blast
qed

section \<open>Properties of Send\<close>

subsection \<open>Validation comes before the network\<close>

text \<open>
  C1. If the \<open>From\<close> address of the email is the empty string, or the \<open>To\<close>, \<open>Cc\<close> and
  \<open>Bcc\<close> lists together are empty, then \<open>Send\<close> returns its validation error with the relay
  untouched and an empty transcript: \<open>SendMail\<close> is not called and nothing is dialled.
\<close>

theorem Send_validation:
  assumes "From e = [] \<or> To e @ Cc e @ Bcc e = []"
  shows "Send lib r e addr username password s =
     (Some ''Must specify at least one From address and one To address'', (s, []))"
  using assms by (auto simp: Send_def)

theorem Send_validation_witness:
  "(From no_recipient_email = [] \<or>
      To no_recipient_email @ Cc no_recipient_email @ Bcc no_recipient_email = []) \<and>
   Send strict_lib plain_relay no_recipient_email ''mail:25'' [] [] () =
     (Some ''Must specify at least one From address and one To address'', ((), []))"
proof -
  have h: "From no_recipient_email = [] \<or>
      To no_recipient_email @ Cc no_recipient_email @ Bcc no_recipient_email = []"
    by (simp add: no_recipient_email_def NewEmail_def)
  from Send_validation[OF h, of strict_lib plain_relay "''mail:25''" "[]" "[]" "()"] h
  show ?thesis by (rule conjI[rotated])
qed

subsection \<open>The recipients handed to SendMail\<close>

lemma SendMail_success_rcpts:
  assumes "fst (SendMail r addr username password from to msg s) = None"
  shows "filter is_Rcpt (map fst (snd (snd (SendMail r addr username password from to msg s))))
           = map Rcpt to"
proof -
  obtain res s' tr where sm: "SendMail r addr username password from to msg s = (res, s', tr)"
    by (cases "SendMail r addr username password from to msg s") auto
  with assms have res: "res = None" by simp
  from sm have "filter is_Rcpt (map fst tr) = map Rcpt to"
  proof (cases rule: SendMail_cases)
    case (envelope hs env cl)
    from envelope(3) res have env: "env = ok (envelope_script from to msg)" by auto
    from envelope(2) have hs: "filter is_Rcpt (map fst hs) = []" by auto
    have "filter is_Rcpt (map Rcpt to) = map Rcpt to"
      by (induction to) simp_all
    then have "filter is_Rcpt (map fst env) = map Rcpt to"
      by (simp add: env ok_def envelope_script_def comp_def)
    with hs envelope(1) show ?thesis by simp
  qed (use res in simp_all)
  with sm show ?thesis by simp
qed

text \<open>
  C2. If the \<open>From\<close> address is not empty and parses, at least one recipient is given and
  the message can be encoded, then \<open>Send\<close> is \<open>SendMail\<close> called with the recipient list
  \<open>To\<close>, then \<open>Cc\<close>, then \<open>Bcc\<close>, in their order and with their duplicates; when the send
  succeeds, the recipients declared to the relay are exactly these, in this order.
\<close>

theorem Send_recipients:
  assumes "From e \<noteq> []" and "To e @ Cc e @ Bcc e \<noteq> []"
    and "ParseAddress lib (From e) = Inr from" and "Bytes lib e = Inr raw"
  shows "Send lib r e addr username password s =
           SendMail r addr username password from (To e @ Cc e @ Bcc e) raw s \<and>
         (fst (Send lib r e addr username password s) = None \<longrightarrow>
            filter is_Rcpt (map fst (snd (snd (Send lib r e addr username password s))))
              = map Rcpt (To e @ Cc e @ Bcc e))"
proof -
  have eq: "Send lib r e addr username password s =
           SendMail r addr username password from (To e @ Cc e @ Bcc e) raw s"
    using assms by (auto simp add: Send_def)
  show ?thesis
    unfolding eq by (simp add: SendMail_success_rcpts)
qed

lemma three_lists_run:
  "Send strict_lib plain_relay three_lists_email ''mail:25'' [] [] () =
    (None, (),
     [(Dial ''mail:25'', None), (Hello ''localhost'', None), (Mail ''a@x.com'', None),
      (Rcpt ''b@y.com'', None), (Rcpt ''c@z.com'', None), (Rcpt ''d@y.com'', None),
      (Rcpt ''b@y.com'', None), (Data, None), (Write ''hi'', None), (CloseData, None),
      (Quit, None), (Close, None)])"
  by (simp add: Send_def SendMail_def SendMail_body_def starttls_block_def envelope_data_quit_def
        call_def plain_relay_def strict_lib_def three_lists_email_def NewEmail_def)

theorem Send_recipients_witness:
  "From three_lists_email \<noteq> [] \<and>
   To three_lists_email @ Cc three_lists_email @ Bcc three_lists_email \<noteq> [] \<and>
   ParseAddress strict_lib (From three_lists_email) = Inr ''a@x.com'' \<and>
   Bytes strict_lib three_lists_email = Inr ''hi'' \<and>
   fst (Send strict_lib plain_relay three_lists_email ''mail:25'' [] [] ()) = None \<and>
   filter is_Rcpt (map fst (snd (snd
       (Send strict_lib plain_relay three_lists_email ''mail:25'' [] [] ()))))
     = map Rcpt [''b@y.com'', ''c@z.com'', ''d@y.com'', ''b@y.com'']"
proof -
  have h1: "From three_lists_email \<noteq> []"
    and h2: "To three_lists_email @ Cc three_lists_email @ Bcc three_lists_email \<noteq> []"
    and h3: "ParseAddress strict_lib (From three_lists_email) = Inr ''a@x.com''"
    and h4: "Bytes strict_lib three_lists_email = Inr ''hi''"
    and l: "To three_lists_email @ Cc three_lists_email @ Bcc three_lists_email =
        [''b@y.com'', ''c@z.com'', ''d@y.com'', ''b@y.com'']"
    by (simp_all add: three_lists_email_def NewEmail_def strict_lib_def)
  have h5: "fst (Send strict_lib plain_relay three_lists_email ''mail:25'' [] [] ()) = None"
    by (simp add: three_lists_run)
  from Send_recipients[OF h1 h2 h3 h4, of plain_relay "''mail:25''" "[]" "[]" "()"] h5
  have "filter is_Rcpt (map fst (snd (snd
       (Send strict_lib plain_relay three_lists_email ''mail:25'' [] [] ()))))
     = map Rcpt (To three_lists_email @ Cc three_lists_email @ Bcc three_lists_email)"
    by blast
  with h1 h2 h3 h4 h5 show ?thesis unfolding l by blast
qed

subsection \<open>Which addresses are parsed\<close>

lemma odd_recipient_run:
  "Send strict_lib plain_relay odd_recipient_email ''mail:25'' [] [] () =
    (None, (),
     [(Dial ''mail:25'', None), (Hello ''localhost'', None), (Mail ''a@x.com'', None),
      (Rcpt ''nobody'', None), (Data, None), (Write ''hi'', None), (CloseData, None),
      (Quit, None), (Close, None)])"
  by (simp add: Send_def SendMail_def SendMail_body_def starttls_block_def envelope_data_quit_def
        call_def plain_relay_def strict_lib_def odd_recipient_email_def NewEmail_def)

text \<open>
  A recipient that the address parser refuses is not refused by \<open>Send\<close>: it is declared to
  the relay as it stands, and the send succeeds when the relay accepts it.
\<close>

theorem Send_recipient_unparsed_counterexample:
  "ParseAddress strict_lib ''nobody'' = Inl ''mail: missing @ in addr-spec'' \<and>
   To odd_recipient_email = [''nobody''] \<and>
   fst (Send strict_lib plain_relay odd_recipient_email ''mail:25'' [] [] ()) = None \<and>
   (Rcpt ''nobody'', None) \<in> set (snd (snd
      (Send strict_lib plain_relay odd_recipient_email ''mail:25'' [] [] ())))"
  by (simp add: odd_recipient_run) (simp add: strict_lib_def odd_recipient_email_def NewEmail_def)

text \<open>
  C7, amended. \<open>Send\<close> parses the sender address only: two parsers that agree on the
  \<open>From\<close> address give the same \<open>Send\<close>, whatever they say about the recipients. A sender
  address that the parser refuses makes \<open>Send\<close> return an error with the relay untouched and
  an empty transcript, so before \<open>SendMail\<close> is called; the error is the parser's own once
  the check for an empty sender or an empty recipient list has passed.
\<close>

theorem Send_parses_sender_only:
  assumes "ParseAddress lib' (From e) = ParseAddress lib (From e)"
    and "Bytes lib' e = Bytes lib e"
  shows "Send lib' r e addr username password s = Send lib r e addr username password s \<and>
     (\<forall>err. ParseAddress lib (From e) = Inl err \<longrightarrow>
        Send lib r e addr username password s =
          (Some (if From e = [] \<or> To e @ Cc e @ Bcc e = []
                 then ''Must specify at least one From address and one To address'' else err),
           (s, [])))"
  using assms by (auto simp: Send_def split: sum.splits)

theorem Send_parses_sender_only_witness:
  "ParseAddress lenient_lib (From odd_recipient_email) = ParseAddress strict_lib (From odd_recipient_email) \<and>
   Bytes lenient_lib odd_recipient_email = Bytes strict_lib odd_recipient_email \<and>
   Send lenient_lib plain_relay odd_recipient_email ''mail:25'' [] [] () =
     Send strict_lib plain_relay odd_recipient_email ''mail:25'' [] [] () \<and>
   ParseAddress strict_lib (From odd_sender_email) = Inl ''mail: missing @ in addr-spec'' \<and>
   Send strict_lib plain_relay odd_sender_email ''mail:25'' [] [] () =
     (Some ''mail: missing @ in addr-spec'', ((), []))"
proof -
  have h1: "ParseAddress lenient_lib (From odd_recipient_email) =
      ParseAddress strict_lib (From odd_recipient_email)"
    and h2: "Bytes lenient_lib odd_recipient_email = Bytes strict_lib odd_recipient_email"
    by (simp_all add: lenient_lib_def strict_lib_def odd_recipient_email_def NewEmail_def)
  have h3: "ParseAddress strict_lib (From odd_sender_email) = Inl ''mail: missing @ in addr-spec''"
    and ne: "\<not> (From odd_sender_email = [] \<or>
        To odd_sender_email @ Cc odd_sender_email @ Bcc odd_sender_email = [])"
    by (simp_all add: strict_lib_def odd_sender_email_def NewEmail_def)
  from Send_parses_sender_only[OF h1 h2, of plain_relay "''mail:25''" "[]" "[]" "()"]
  have a: "Send lenient_lib plain_relay odd_recipient_email ''mail:25'' [] [] () =
     Send strict_lib plain_relay odd_recipient_email ''mail:25'' [] [] ()" by blast
  from Send_parses_sender_only[of strict_lib odd_sender_email strict_lib plain_relay
      "''mail:25''" "[]" "[]" "()"] h3 ne
  have b: "Send strict_lib plain_relay odd_sender_email ''mail:25'' [] [] () =
     (Some ''mail: missing @ in addr-spec'', ((), []))" by simp
  from h1 h2 a h3 b show ?thesis by blast
qed

section \<open>Properties of DoPost\<close>

lemma hook_run:
  "DoPost http_404 hook_notification cpu_incident empty_world =
     Returned \<lparr>slog = [Errorln [S ''bad response on notification post:'', S ''404 Not Found'']],
               collect = no_counts,
               posted = [(''http://hook'', ''text/plain'', ''<load is 9>'')]\<rparr>"
  by (simp add: DoPost_def DoPost_payload_def GetPayload_def log_def hook_notification_def
        cpu_incident_def empty_world_def)

text \<open>
  With a body template, \<open>UseFullContext\<close> false and \<open>UseBody\<close> true, what is posted is not
  the raw body of the incident but what the template renders from it.
\<close>

theorem DoPost_payload_not_raw_body_counterexample:
  "Notification.Body hook_notification = Some bracket_template \<and>
   \<not> UseFullContext hook_notification \<and> UseBody hook_notification \<and>
   IncidentState.Body cpu_incident = ''load is 9'' \<and>
   DoPost http_404 hook_notification cpu_incident empty_world =
     Returned \<lparr>slog = [Errorln [S ''bad response on notification post:'', S ''404 Not Found'']],
               collect = no_counts,
               posted = [(''http://hook'', ''text/plain'', ''<load is 9>'')]\<rparr> \<and>
   ''<load is 9>'' \<noteq> IncidentState.Body cpu_incident"
  by (simp add: hook_run) (simp add: hook_notification_def cpu_incident_def)

text \<open>
  C8, amended. With a body template, \<open>UseFullContext\<close> false and \<open>UseBody\<close> true, the payload
  that \<open>DoPost\<close> posts is the template executed on the incident's raw body string: the
  string, not the incident, is the template's context.
\<close>

theorem DoPost_payload_template_on_body:
  assumes "Notification.Body n = Some t" and "\<not> UseFullContext n" and "UseBody n"
    and "Post n = Some url"
    and "t (StringContext (IncidentState.Body st)) = Inr out"
    and "http_Post url (ContentType n) out \<noteq> (None, None)"
  shows "DoPost_payload n st = Inr out \<and>
     (\<exists>w'. DoPost http_Post n st w = Returned w' \<and> posted w' = posted w @ [(url, ContentType n, out)])"
proof -
  have p: "DoPost_payload n st = Inr out"
    using assms(1,2,3,5) by (simp add: DoPost_payload_def GetPayload_def)
  obtain resp e where h: "http_Post url (ContentType n) out = (resp, e)"
    by (cases "http_Post url (ContentType n) out")
  with assms(6) have "e \<noteq> None \<or> resp \<noteq> None" by auto
  then have "\<exists>w'. DoPost http_Post n st w = Returned w' \<and> posted w' = posted w @ [(url, ContentType n, out)]"
    using p assms(4) h
    by (cases e; cases resp) (auto simp: DoPost_def log_def Let_def)
  with p show ?thesis by blast
qed

theorem DoPost_payload_template_on_body_witness:
  "Notification.Body hook_notification = Some bracket_template \<and>
   \<not> UseFullContext hook_notification \<and> UseBody hook_notification \<and>
   Post hook_notification = Some ''http://hook'' \<and>
   bracket_template (StringContext (IncidentState.Body cpu_incident)) = Inr ''<load is 9>'' \<and>
   http_404 ''http://hook'' (ContentType hook_notification) ''<load is 9>'' \<noteq> (None, None) \<and>
   DoPost_payload hook_notification cpu_incident = Inr ''<load is 9>''"
proof -
  have h1: "Notification.Body hook_notification = Some bracket_template"
    and h2: "\<not> UseFullContext hook_notification" and h3: "UseBody hook_notification"
    and h4: "Post hook_notification = Some ''http://hook''"
    and h5: "bracket_template (StringContext (IncidentState.Body cpu_incident)) = Inr ''<load is 9>''"
    and h6: "http_404 ''http://hook'' (ContentType hook_notification) ''<load is 9>'' \<noteq> (None, None)"
    by (simp_all add: hook_notification_def cpu_incident_def)
  from DoPost_payload_template_on_body[of hook_notification bracket_template "''http://hook''"
      cpu_incident "''<load is 9>''" http_404 empty_world, OF h1 h2 h3 h4 h5 h6] h1 h2 h3 h4 h5 h6
  show ?thesis by blast
qed

text \<open>
  C9. When \<open>http.Post\<close> returns a response with a status code of 300 or more and no error,
  \<open>DoPost\<close> returns normally (it has no result, so no error reaches its caller), having
  added one error line about the bad response to the log and left every counter as it was.
\<close>

theorem DoPost_bad_status:
  assumes "DoPost_payload n st = Inr payload" and "Post n = Some url"
    and "http_Post url (ContentType n) payload = (Some resp, None)"
    and "StatusCode resp \<ge> 300"
  shows "\<exists>w'. DoPost http_Post n st w = Returned w' \<and>
     slog w' = slog w @ [Errorln [S ''bad response on notification post:'', S (Status resp)]] \<and>
     collect w' = collect w"
  using assms by (simp add: DoPost_def log_def)

theorem DoPost_bad_status_witness:
  "DoPost_payload hook_notification cpu_incident = Inr ''<load is 9>'' \<and>
   Post hook_notification = Some ''http://hook'' \<and>
   http_404 ''http://hook'' (ContentType hook_notification) ''<load is 9>'' =
     (Some \<lparr>StatusCode = 404, Status = ''404 Not Found''\<rparr>, None) \<and>
   StatusCode \<lparr>StatusCode = 404, Status = ''404 Not Found''\<rparr> \<ge> 300 \<and>
   (\<exists>w'. DoPost http_404 hook_notification cpu_incident empty_world = Returned w' \<and>
     slog w' = slog empty_world @
       [Errorln [S ''bad response on notification post:'',
                 S (Status \<lparr>StatusCode = 404, Status = ''404 Not Found''\<rparr>)]] \<and>
     collect w' = collect empty_world)"
proof -
  have h1: "DoPost_payload hook_notification cpu_incident = Inr ''<load is 9>''"
    and h2: "Post hook_notification = Some ''http://hook''"
    and h3: "http_404 ''http://hook'' (ContentType hook_notification) ''<load is 9>'' =
     (Some \<lparr>StatusCode = 404, Status = ''404 Not Found''\<rparr>, None)"
    and h4: "StatusCode \<lparr>StatusCode = 404, Status = ''404 Not Found''\<rparr> \<ge> 300"
    by (simp_all add: DoPost_payload_def GetPayload_def hook_notification_def cpu_incident_def)
  from DoPost_bad_status[where http_Post = http_404 and w = empty_world, OF h1 h2 h3 h4]
    h1 h2 h3 h4
  show ?thesis by blast
qed

section \<open>Properties of DoEmail\<close>

text \<open>Every call of \<open>DoEmail\<close> adds one to exactly one of the two counters.\<close>

lemma DoEmail_counts_once:
  "collect (fst (DoEmail lib r hostname n st c s w)) ''email.sent'' +
   collect (fst (DoEmail lib r hostname n st c s w)) ''email.sent_failed'' =
   collect w ''email.sent'' + collect w ''email.sent_failed'' + 1"
  by (simp add: DoEmail_def collect_Add_def log_def Let_def split: prod.splits option.splits)

text \<open>Without recipients it counts a failure and the relay is never dialled.\<close>

lemma DoEmail_no_recipients:
  assumes "Email n = []"
  shows "snd (DoEmail lib r hostname n st c s w) = (s, []) \<and>
     collect (fst (DoEmail lib r hostname n st c s w)) ''email.sent_failed'' =
       collect w ''email.sent_failed'' + 1"
  using assms
  by (simp add: DoEmail_def Send_def NewEmail_def collect_Add_def log_def Let_def)

end
